theory Spec2Isabelle
  imports Main "HOL-Library.Word"
begin

section \<open>Values, errors and the file handle\<close>

text \<open>
  The module \<^verbatim>\<open>shared/file_io.py\<close> wraps a Python binary file object.  A byte is an
  8-bit word, a Python \<^verbatim>\<open>str\<close> is the list of its code points, a Python \<^verbatim>\<open>float\<close> is
  the bit pattern of its IEEE binary64 datum, and a Python \<^verbatim>\<open>int\<close> is an unbounded
  integer.  Type descriptors and \<^verbatim>\<open>whence\<close> arguments are the strings the code
  compares them with.
\<close>

type_synonym byte = "8 word"

type_synonym pystr = "nat list"

datatype pyval = PInt int | PFloat "64 word" | PStr pystr

text \<open>
  Every exception the code can raise on an open handle.  Four of them are
  \<^verbatim>\<open>ValueError\<close>s: the two the module raises itself, which carry the offending argument
  as their messages do, the one of \<^verbatim>\<open>file.seek\<close> for an offset that the offset type
  cannot hold, and the one of \<^verbatim>\<open>file.read\<close> for a length below \<open>-1\<close>.
\<close>

datatype error =
    InvalidType string
  | InvalidWhence string
  | OffsetValueError
  | ReadLengthValueError
  | OSError
  | StructError
  | OverflowError
  | MemoryError
  | TypeError
  | UnicodeEncodeError
  | IndexError
  | KeyError

text \<open>
  An open file: its bytes and the cursor, and the two limits of the platform it lives
  on: \<open>fs_max\<close>, the largest offset (and file size) that the file system accepts, and
  \<open>alloc_max\<close>, the size of the largest buffer that a read can obtain.
\<close>

record pyfile =
  content :: "byte list"
  pos :: nat
  fs_max :: nat
  alloc_max :: nat

text \<open>
  File offsets are signed 64-bit numbers, so no position lies beyond \<open>2 ^ 63 - 1\<close>
  whatever the file system accepts.
\<close>

definition max_offset :: "pyfile \<Rightarrow> nat" where
  "max_offset f = min (fs_max f) (2 ^ 63 - 1)"

text \<open>
  \<^verbatim>\<open>open(path, 'wb+')\<close>: the file is created or truncated, the cursor is at 0.  The
  constant is such a file on a platform of modest limits, files of up to \<open>2 ^ 31 - 1\<close>
  bytes and reads of up to \<open>2 ^ 16\<close> bytes, which every platform that runs the module
  provides.  It serves the concrete scenarios; the general statements are about any
  handle.
\<close>

definition fresh :: pyfile where
  "fresh = \<lparr>content = [], pos = 0, fs_max = 2 ^ 31 - 1, alloc_max = 2 ^ 16\<rparr>"

text \<open>
  \<^verbatim>\<open>file.seek(offset)\<close> and \<^verbatim>\<open>file.seek(offset, 1)\<close>.  An offset outside the signed 64-bit
  range raises \<^verbatim>\<open>ValueError\<close>; a target that is negative or beyond what the file system
  accepts raises \<^verbatim>\<open>OSError\<close>.  The cursor stays where it was when the call raises.
\<close>

definition file_seek_set :: "pyfile \<Rightarrow> int \<Rightarrow> error + pyfile" where
  "file_seek_set f offset =
     (if offset < - (2 ^ 63) \<or> 2 ^ 63 \<le> offset then Inl OffsetValueError
      else if offset < 0 \<or> int (max_offset f) < offset then Inl OSError
      else Inr (f\<lparr>pos := nat offset\<rparr>))"

definition file_seek_cur :: "pyfile \<Rightarrow> int \<Rightarrow> error + pyfile" where
  "file_seek_cur f offset =
     (if offset < - (2 ^ 63) \<or> 2 ^ 63 \<le> offset then Inl OffsetValueError
      else if int (pos f) + offset < 0 \<or> int (max_offset f) < int (pos f) + offset
      then Inl OSError
      else Inr (f\<lparr>pos := nat (int (pos f) + offset)\<rparr>))"

text \<open>
  \<^verbatim>\<open>file.read(n)\<close>.  A length outside the signed 64-bit range raises \<^verbatim>\<open>OverflowError\<close>
  and a length below \<open>-1\<close> raises \<^verbatim>\<open>ValueError\<close>.  The length \<open>-1\<close> asks for the rest of
  the file.  Any other length asks for a buffer of that size: one too large for a bytes
  object (whose header takes 33 bytes) raises \<^verbatim>\<open>OverflowError\<close>, one larger than the
  platform can provide raises \<^verbatim>\<open>MemoryError\<close>.  Otherwise the call returns at most \<open>n\<close>
  bytes from the cursor, fewer at the end of the file, and the cursor moves past what was
  read.  The cursor stays where it was when the call raises.
\<close>

definition file_read :: "pyfile \<Rightarrow> int \<Rightarrow> (error + byte list) \<times> pyfile" where
  "file_read f n =
     (let rest = drop (pos f) (content f)
      in if n < - (2 ^ 63) \<or> 2 ^ 63 \<le> n then (Inl OverflowError, f)
         else if n < - 1 then (Inl ReadLengthValueError, f)
         else if n = - 1
         then (if alloc_max f < length rest then (Inl MemoryError, f)
               else (Inr rest, f\<lparr>pos := pos f + length rest\<rparr>))
         else if 2 ^ 63 - 34 < n then (Inl OverflowError, f)
         else if int (alloc_max f) < n then (Inl MemoryError, f)
         else (Inr (take (nat n) rest), f\<lparr>pos := pos f + length (take (nat n) rest)\<rparr>))"

text \<open>The bytes \<open>bs\<close> put at position \<open>p\<close>: a gap after the end of the file reads as zero bytes.\<close>

definition put_bytes :: "byte list \<Rightarrow> nat \<Rightarrow> byte list \<Rightarrow> byte list" where
  "put_bytes c p bs =
     take p c @ replicate (p - length c) 0 @ bs @ drop (p + length bs) c"

text \<open>
  \<^verbatim>\<open>file.write(bs)\<close>: the bytes overwrite the file from the cursor on and extend it, and
  the result is the number of bytes written.  Writing nothing changes nothing.  When the
  bytes would end beyond what the file system accepts, the part that fits is written and
  the call raises \<^verbatim>\<open>OSError\<close>.  The handle is modelled without its write buffer: the
  bytes reach the file, and a refusal is reported, in the call itself.
\<close>

definition file_write :: "pyfile \<Rightarrow> byte list \<Rightarrow> (error + int) \<times> pyfile" where
  "file_write f bs =
     (let room = max_offset f - pos f; part = take room bs;
          f1 = (if part = [] then f
                else f\<lparr>content := put_bytes (content f) (pos f) part,
                       pos := pos f + length part\<rparr>)
      in if length bs \<le> room then (Inr (int (length bs)), f1) else (Inl OSError, f1))"

section \<open>The struct formats\<close>

text \<open>Big-endian bytes of an unsigned number, most significant byte first.\<close>

fun be_bytes :: "nat \<Rightarrow> nat \<Rightarrow> byte list" where
  "be_bytes 0 n = []"
| "be_bytes (Suc k) n = be_bytes k (n div 256) @ [of_nat n]"

definition be_nat :: "byte list \<Rightarrow> nat" where
  "be_nat bs = foldl (\<lambda>a b. a * 256 + unat b) 0 bs"

text \<open>
  The integer formats: \<^verbatim>\<open>struct.pack\<close> refuses a value outside the format's range and
  an argument that is not an integer; \<^verbatim>\<open>struct.unpack\<close> refuses a buffer of the wrong
  length.
\<close>

definition pack_unsigned :: "nat \<Rightarrow> pyval \<Rightarrow> error + byte list" where
  "pack_unsigned k v =
     (case v of
        PInt n \<Rightarrow> if 0 \<le> n \<and> n < 2 ^ (8 * k) then Inr (be_bytes k (nat n))
                  else Inl StructError
      | _ \<Rightarrow> Inl StructError)"

definition pack_signed :: "nat \<Rightarrow> pyval \<Rightarrow> error + byte list" where
  "pack_signed k v =
     (case v of
        PInt n \<Rightarrow> if - (2 ^ (8 * k - 1)) \<le> n \<and> n < 2 ^ (8 * k - 1)
                  then Inr (be_bytes k (nat (n mod 2 ^ (8 * k))))
                  else Inl StructError
      | _ \<Rightarrow> Inl StructError)"

definition unpack_unsigned :: "nat \<Rightarrow> byte list \<Rightarrow> error + pyval" where
  "unpack_unsigned k bs =
     (if length bs = k then Inr (PInt (int (be_nat bs))) else Inl StructError)"

definition unpack_signed :: "nat \<Rightarrow> byte list \<Rightarrow> error + pyval" where
  "unpack_signed k bs =
     (if length bs = k
      then (let u = int (be_nat bs)
            in Inr (PInt (if 2 ^ (8 * k - 1) \<le> u then u - 2 ^ (8 * k) else u)))
      else Inl StructError)"

subsection \<open>The floating-point formats\<close>

text \<open>
  A Python float is an IEEE binary64 datum: a sign bit, 11 exponent bits (bias 1023) and
  52 fraction bits.  A binary32 datum has a sign bit, 8 exponent bits (bias 127) and 23
  fraction bits.  The format \<^verbatim>\<open>d\<close> stores the pattern of the float as it is.  The format
  \<^verbatim>\<open>f\<close> converts the float to binary32 first, rounding to nearest with ties to even, and
  refuses a finite value that rounds to infinity; unpacking widens the binary32 datum,
  which is exact.  The conversions are written on the fields of the patterns.
\<close>

text \<open>The number of bits of a natural number.\<close>

fun bitlen :: "nat \<Rightarrow> nat" where
  "bitlen n = (if n = 0 then 0 else Suc (bitlen (n div 2)))"

declare bitlen.simps [simp del]

text \<open>\<open>rne s sh\<close> is \<open>s / 2 ^ sh\<close> rounded to the nearest integer, ties to even.\<close>

definition rne :: "nat \<Rightarrow> nat \<Rightarrow> nat" where
  "rne s sh =
     (let q = s div 2 ^ sh; r = s mod 2 ^ sh
      in if 2 ^ sh < 2 * r \<or> (2 * r = 2 ^ sh \<and> odd q) then q + 1 else q)"

text \<open>
  Narrowing.  An infinity stays one; a NaN becomes a quiet NaN with the top of its
  payload.  Otherwise the significand (with its hidden bit, unless the double is
  subnormal) is shifted right and rounded: by 29 bits when the exponent field is at least
  897 (the value is at least \<open>2 ^ - 126\<close>, the binary32 normal range), and by that
  many more bits as the exponent is below 897 (the binary32 subnormal range).  The
  rounded significand is added to the exponent field, so that a carry of the rounding
  moves into the exponent; a result that reaches the pattern of infinity is the overflow
  that is refused.
\<close>

definition double_to_single :: "64 word \<Rightarrow> error + 32 word" where
  "double_to_single w =
     (let x = unat w; sb = x div 2 ^ 63; a = x mod 2 ^ 63;
          e = a div 2 ^ 52; m = a mod 2 ^ 52
      in if e = 2047
         then Inr (of_nat (sb * 2 ^ 31 + 255 * 2 ^ 23
                     + (if m = 0 then 0 else 2 ^ 22 + (m div 2 ^ 29) mod 2 ^ 22)))
         else
           (let sig = (if e = 0 then m else 2 ^ 52 + m);
                ee = (if e = 0 then 1 else e);
                fbits = (if 897 \<le> ee then (ee - 897) * 2 ^ 23 + rne sig 29
                         else rne sig (29 + (897 - ee)))
            in if 255 * 2 ^ 23 \<le> fbits then Inl OverflowError
               else Inr (of_nat (sb * 2 ^ 31 + fbits))))"

text \<open>
  Widening.  A normal binary32 datum keeps its fraction and has its exponent rebiased;
  a subnormal one, \<open>fm * 2 ^ - 149\<close>, is normalised by the length of \<open>fm\<close>; a NaN becomes
  a quiet NaN.
\<close>

definition single_to_double :: "32 word \<Rightarrow> 64 word" where
  "single_to_double y =
     (let x = unat y; sb = x div 2 ^ 31; a = x mod 2 ^ 31;
          fe = a div 2 ^ 23; fm = a mod 2 ^ 23
      in of_nat (sb * 2 ^ 63 +
           (if fe = 255
            then 2047 * 2 ^ 52 + (if fm = 0 then 0 else 2 ^ 51 + (fm mod 2 ^ 22) * 2 ^ 29)
            else if fe = 0
            then (if fm = 0 then 0
                  else (bitlen fm + 872) * 2 ^ 52 + fm * 2 ^ (53 - bitlen fm))
            else (fe + 896) * 2 ^ 52 + fm * 2 ^ 29)))"

text \<open>
  \<^verbatim>\<open>struct.pack\<close> with a float format converts an integer argument to a float first
  (round to nearest, ties to even); the conversion refuses an integer that is too
  large, and \<^verbatim>\<open>struct.pack\<close> reports that as its own error, as it does for an argument
  that is no number.
\<close>

definition int_to_double :: "int \<Rightarrow> error + 64 word" where
  "int_to_double n =
     (let sb = (if n < 0 then 1 else 0 :: nat); a = nat \<bar>n\<bar>; k = bitlen a
      in if a = 0 then Inr 0
         else
           (let bits = (k + 1021) * 2 ^ 52
                         + (if k \<le> 53 then a * 2 ^ (53 - k) else rne a (k - 53))
            in if 2047 * 2 ^ 52 \<le> bits then Inl OverflowError
               else Inr (of_nat (sb * 2 ^ 63 + bits))))"

definition as_double :: "pyval \<Rightarrow> error + 64 word" where
  "as_double v =
     (case v of
        PFloat w \<Rightarrow> Inr w
      | PInt n \<Rightarrow> (case int_to_double n of Inl e \<Rightarrow> Inl StructError | Inr w \<Rightarrow> Inr w)
      | PStr s \<Rightarrow> Inl StructError)"

definition pack_double :: "pyval \<Rightarrow> error + byte list" where
  "pack_double v =
     (case as_double v of Inl e \<Rightarrow> Inl e | Inr w \<Rightarrow> Inr (be_bytes 8 (unat w)))"

definition pack_float :: "pyval \<Rightarrow> error + byte list" where
  "pack_float v =
     (case as_double v of
        Inl e \<Rightarrow> Inl e
      | Inr w \<Rightarrow>
          (case double_to_single w of
             Inl e \<Rightarrow> Inl e
           | Inr y \<Rightarrow> Inr (be_bytes 4 (unat y))))"

definition unpack_double :: "byte list \<Rightarrow> error + pyval" where
  "unpack_double bs =
     (if length bs = 8 then Inr (PFloat (of_nat (be_nat bs))) else Inl StructError)"

definition unpack_float :: "byte list \<Rightarrow> error + pyval" where
  "unpack_float bs =
     (if length bs = 4 then Inr (PFloat (single_to_double (of_nat (be_nat bs))))
      else Inl StructError)"

text \<open>
  \<^verbatim>\<open>struct.pack(fmt, v)\<close> and \<^verbatim>\<open>struct.unpack(fmt, bs)[0]\<close> for the formats used.
  \<^verbatim>\<open>struct.pack\<close> reports an \<^verbatim>\<open>OverflowError\<close> that an integer argument causes as its own
  error.
\<close>

definition pack_format :: "string \<Rightarrow> pyval \<Rightarrow> error + byte list" where
  "pack_format fmt v =
     (if fmt = ''>B'' then pack_unsigned 1 v
      else if fmt = ''>H'' then pack_unsigned 2 v
      else if fmt = ''>I'' then pack_unsigned 4 v
      else if fmt = ''>b'' then pack_signed 1 v
      else if fmt = ''>h'' then pack_signed 2 v
      else if fmt = ''>i'' then pack_signed 4 v
      else if fmt = ''>f'' then pack_float v
      else if fmt = ''>d'' then pack_double v
      else Inl StructError)"

definition struct_pack :: "string \<Rightarrow> pyval \<Rightarrow> error + byte list" where
  "struct_pack fmt v =
     (case (v, pack_format fmt v) of
        (PInt n, Inl OverflowError) \<Rightarrow> Inl StructError
      | (_, r) \<Rightarrow> r)"

definition struct_unpack :: "string \<Rightarrow> byte list \<Rightarrow> error + pyval" where
  "struct_unpack fmt bs =
     (if fmt = ''>B'' then unpack_unsigned 1 bs
      else if fmt = ''>H'' then unpack_unsigned 2 bs
      else if fmt = ''>I'' then unpack_unsigned 4 bs
      else if fmt = ''>b'' then unpack_signed 1 bs
      else if fmt = ''>h'' then unpack_signed 2 bs
      else if fmt = ''>i'' then unpack_signed 4 bs
      else if fmt = ''>f'' then unpack_float bs
      else if fmt = ''>d'' then unpack_double bs
      else Inl StructError)"

text \<open>
  \<^verbatim>\<open>bytes(data, 'ascii')\<close>: one byte per character; a character beyond 127 and an
  argument that is not a string are refused.
\<close>

definition bytes_ascii :: "pyval \<Rightarrow> error + byte list" where
  "bytes_ascii v =
     (case v of
        PStr s \<Rightarrow> if list_all (\<lambda>c. c < 128) s then Inr (map of_nat s)
                  else Inl UnicodeEncodeError
      | _ \<Rightarrow> Inl TypeError)"

section \<open>The type descriptor vocabulary\<close>

text \<open>\<^verbatim>\<open>str.endswith\<close>.\<close>

definition endswith :: "string \<Rightarrow> string \<Rightarrow> bool" where
  "endswith s suf =
     (length suf \<le> length s \<and> drop (length s - length suf) s = suf)"

definition is_primitive :: "string \<Rightarrow> bool" where
  "is_primitive type =
     (type \<in> set [''uchar'', ''ushort'', ''uint'',
                  ''char'', ''short'', ''int'',
                  ''float'', ''double'', ''string''])"

text \<open>The dictionary of \<^verbatim>\<open>primitive_size\<close>; a missing key raises \<^verbatim>\<open>KeyError\<close>.\<close>

definition primitive_sizes :: "(string \<times> int) list" where
  "primitive_sizes =
     [(''uchar'', 1), (''char'', 1), (''ushort'', 2), (''short'', 2),
      (''uint'', 4), (''int'', 4), (''float'', 4), (''double'', 8)]"

definition primitive_size :: "string \<Rightarrow> error + int" where
  "primitive_size type =
     (if type = ''string'' then Inr 0
      else if \<not> is_primitive type then Inr 0
      else (case map_of primitive_sizes type of
              None \<Rightarrow> Inl KeyError
            | Some n \<Rightarrow> Inr n))"

definition is_array :: "string \<Rightarrow> bool" where
  "is_array type = endswith type ''[]''"

definition is_pointer :: "string \<Rightarrow> bool" where
  "is_pointer type = endswith type ''*''"

section \<open>BinaryReader\<close>

text \<open>
  Every method takes the handle and returns it as the call leaves it, also when the
  call raises: the cursor is state shared by all calls.
\<close>

definition seek :: "pyfile \<Rightarrow> int \<Rightarrow> string \<Rightarrow> error + pyfile" where
  "seek f offset whence =
     (if whence = ''start'' then file_seek_set f offset
      else if whence = ''current'' then file_seek_cur f offset
      else Inl (InvalidWhence whence))"

definition tell :: "pyfile \<Rightarrow> int" where
  "tell f = int (pos f)"

definition read_chunk :: "pyfile \<Rightarrow> int \<Rightarrow> int \<Rightarrow> string \<Rightarrow> (error + byte list) \<times> pyfile" where
  "read_chunk f offset sz whence =
     (case seek f offset whence of
        Inl e \<Rightarrow> (Inl e, f)
      | Inr f1 \<Rightarrow> file_read f1 sz)"

text \<open>\<^verbatim>\<open>self.file.read(1)[0]\<close>: indexing the empty result at the end of the file raises.\<close>

definition read_byte :: "pyfile \<Rightarrow> (error + byte) \<times> pyfile" where
  "read_byte f =
     (case file_read f 1 of
        (Inl e, f1) \<Rightarrow> (Inl e, f1)
      | (Inr [], f1) \<Rightarrow> (Inl IndexError, f1)
      | (Inr (b # bs), f1) \<Rightarrow> (Inr b, f1))"

text \<open>
  The loop of \<^verbatim>\<open>_read_string\<close>, with the string read so far: read a byte, stop at a
  zero byte, append \<^verbatim>\<open>chr\<close> of any other and go on.
\<close>

function read_string_loop :: "pyfile \<Rightarrow> pystr \<Rightarrow> (error + pyval) \<times> pyfile" where
  "read_string_loop f s =
     (let r = read_byte f
      in (case fst r of
            Inl e \<Rightarrow> (Inl e, snd r)
          | Inr nextChar \<Rightarrow>
              if nextChar \<noteq> 0 then read_string_loop (snd r) (s @ [unat nextChar])
              else (Inr (PStr s), snd r)))"
  by pat_completeness auto
termination
proof (relation "measure (\<lambda>(f, s). length (content f) - pos f)")
  show "wf (measure (\<lambda>(f, s). length (content f) - pos f))"
    by simp
next
  fix f :: pyfile and s :: pystr and r nextChar
  assume r: "r = read_byte f" and b: "fst r = Inr nextChar"
  have "pos f < length (content f) \<and> pos (snd r) = Suc (pos f)
        \<and> content (snd r) = content f"
  proof (cases "pos f < length (content f)")
    case True
    then have "drop (pos f) (content f) \<noteq> []"
      by simp
    then show ?thesis
      using True b unfolding r read_byte_def file_read_def
      by (cases "drop (pos f) (content f)") (auto simp: Let_def split: if_splits)
  next
    case False
    then have "isl (fst (read_byte f))"
      by (simp add: read_byte_def file_read_def Let_def)
    with b r show ?thesis
      by simp
  qed
  then show "((snd r, s @ [unat nextChar]), (f, s))
             \<in> measure (\<lambda>(f, s). length (content f) - pos f)"
    by auto
qed

definition read_string :: "pyfile \<Rightarrow> (error + pyval) \<times> pyfile" where
  "read_string f = read_string_loop f []"

text \<open>\<^verbatim>\<open>struct.unpack(fmt, self.file.read(n))[0]\<close>: the read comes first.\<close>

definition read_unpack :: "string \<Rightarrow> int \<Rightarrow> pyfile \<Rightarrow> (error + pyval) \<times> pyfile" where
  "read_unpack fmt n f =
     (case file_read f n of
        (Inl e, f1) \<Rightarrow> (Inl e, f1)
      | (Inr bs, f1) \<Rightarrow> (struct_unpack fmt bs, f1))"

definition read :: "pyfile \<Rightarrow> string \<Rightarrow> int \<Rightarrow> int \<Rightarrow> string \<Rightarrow> (error + pyval) \<times> pyfile" where
  "read f type base offset whence =
     (case seek f (base + offset) whence of
        Inl e \<Rightarrow> (Inl e, f)
      | Inr f1 \<Rightarrow>
          if type = ''uchar'' then read_unpack ''>B'' 1 f1
          else if type = ''ushort'' then read_unpack ''>H'' 2 f1
          else if type = ''uint'' then read_unpack ''>I'' 4 f1
          else if type = ''char'' then read_unpack ''>b'' 1 f1
          else if type = ''short'' then read_unpack ''>h'' 2 f1
          else if type = ''int'' then read_unpack ''>i'' 4 f1
          else if type = ''float'' then read_unpack ''>f'' 4 f1
          else if type = ''double'' then read_unpack ''>d'' 8 f1
          else if type = ''string'' then read_string f1
          else (Inl (InvalidType type), f1))"

section \<open>BinaryWriter\<close>

text \<open>\<^verbatim>\<open>self.file.write(bs)\<close> where computing \<open>bs\<close> may raise before anything is written.\<close>

definition write_packed :: "pyfile \<Rightarrow> error + byte list \<Rightarrow> (error + int) \<times> pyfile" where
  "write_packed f r =
     (case r of
        Inl e \<Rightarrow> (Inl e, f)
      | Inr bs \<Rightarrow> file_write f bs)"

text \<open>The method \<^verbatim>\<open>write\<close>.\<close>

definition write_data :: "pyfile \<Rightarrow> string \<Rightarrow> pyval \<Rightarrow> int \<Rightarrow> int \<Rightarrow> string \<Rightarrow> (error + int) \<times> pyfile" where
  "write_data f type data base offset whence =
     (case seek f (base + offset) whence of
        Inl e \<Rightarrow> (Inl e, f)
      | Inr f1 \<Rightarrow>
          if type = ''uchar'' then write_packed f1 (struct_pack ''>B'' data)
          else if type = ''ushort'' then write_packed f1 (struct_pack ''>H'' data)
          else if type = ''uint'' then write_packed f1 (struct_pack ''>I'' data)
          else if type = ''char'' then write_packed f1 (struct_pack ''>b'' data)
          else if type = ''short'' then write_packed f1 (struct_pack ''>h'' data)
          else if type = ''int'' then write_packed f1 (struct_pack ''>i'' data)
          else if type = ''float'' then write_packed f1 (struct_pack ''>f'' data)
          else if type = ''double'' then write_packed f1 (struct_pack ''>d'' data)
          else if type = ''string''
          then write_packed f1
                 (case bytes_ascii data of Inl e \<Rightarrow> Inl e | Inr bs \<Rightarrow> Inr (bs @ [0]))
          else (Inl (InvalidType type), f1))"

definition write_chunk :: "pyfile \<Rightarrow> byte list \<Rightarrow> int \<Rightarrow> string \<Rightarrow> (error + int) \<times> pyfile" where
  "write_chunk f data offset whence =
     (case seek f offset whence of
        Inl e \<Rightarrow> (Inl e, f)
      | Inr f1 \<Rightarrow> file_write f1 data)"

section \<open>Notions used to state the properties\<close>

text \<open>How many of the three classifications hold of a descriptor.\<close>

definition classifications :: "string \<Rightarrow> nat" where
  "classifications type = length (filter id [is_primitive type, is_array type, is_pointer type])"

text \<open>The call raised a \<^verbatim>\<open>ValueError\<close>, whichever of the four.\<close>

definition raises_ValueError :: "error + 'a \<Rightarrow> bool" where
  "raises_ValueError r =
     (case r of
        Inl (InvalidType t) \<Rightarrow> True
      | Inl (InvalidWhence w) \<Rightarrow> True
      | Inl OffsetValueError \<Rightarrow> True
      | Inl ReadLengthValueError \<Rightarrow> True
      | _ \<Rightarrow> False)"

text \<open>
  The largest length that a read can ask for: what the platform provides, and no more
  than a bytes object holds.
\<close>

definition max_read :: "pyfile \<Rightarrow> nat" where
  "max_read f = min (alloc_max f) (2 ^ 63 - 34)"

text \<open>The numeric range of each integer descriptor, both ends included.\<close>

definition int_range :: "string \<Rightarrow> (int \<times> int) option" where
  "int_range type =
     (if type = ''uchar'' then Some (0, 255)
      else if type = ''ushort'' then Some (0, 65535)
      else if type = ''uint'' then Some (0, 4294967295)
      else if type = ''char'' then Some (-128, 127)
      else if type = ''short'' then Some (-32768, 32767)
      else if type = ''int'' then Some (-2147483648, 2147483647)
      else None)"


text \<open>The same for a binary32 pattern.\<close>

definition is_nan32 :: "32 word \<Rightarrow> bool" where
  "is_nan32 y = (let a = unat y mod 2 ^ 31 in a div 2 ^ 23 = 255 \<and> a mod 2 ^ 23 \<noteq> 0)"

text \<open>
  The Python floats that binary32 holds exactly, NaNs left out: the zeros, the
  infinities, the values with an exponent in the normal range of binary32 whose fraction
  fits 23 bits, and those in its subnormal range whose significand is a multiple of the
  smallest binary32 magnitude.
\<close>

definition fits_single :: "64 word \<Rightarrow> bool" where
  "fits_single w =
     (let a = unat w mod 2 ^ 63; e = a div 2 ^ 52; m = a mod 2 ^ 52
      in (e = 0 \<and> m = 0) \<or> (e = 2047 \<and> m = 0)
         \<or> (897 \<le> e \<and> e \<le> 1150 \<and> m mod 2 ^ 29 = 0)
         \<or> (874 \<le> e \<and> e \<le> 896 \<and> m mod 2 ^ (926 - e) = 0))"






section \<open>The type descriptor vocabulary: classification and widths\<close>

lemma is_primitive_cases:
  "is_primitive d \<longleftrightarrow>
     d = ''uchar'' \<or> d = ''ushort'' \<or> d = ''uint'' \<or> d = ''char'' \<or> d = ''short''
     \<or> d = ''int'' \<or> d = ''float'' \<or> d = ''double'' \<or> d = ''string''"
  by (simp add: is_primitive_def)

lemma primitive_not_array: "is_primitive d \<Longrightarrow> \<not> is_array d"
  by (auto simp: is_primitive_cases is_array_def endswith_def)

lemma primitive_not_pointer: "is_primitive d \<Longrightarrow> \<not> is_pointer d"
  by (auto simp: is_primitive_cases is_pointer_def endswith_def)

lemma endswith_last: "endswith s suf \<Longrightarrow> suf \<noteq> [] \<Longrightarrow> s \<noteq> [] \<and> last s = last suf"
  unfolding endswith_def
  by (metis drop_eq_Nil last_drop length_0_conv not_le diff_less le_zero_eq
      length_greater_0_conv zero_less_diff linorder_not_less)

lemma array_not_pointer: "is_array d \<Longrightarrow> \<not> is_pointer d"
proof
  assume a: "is_array d" and p: "is_pointer d"
  from a have "last d = CHR '']''"
    using endswith_last [of d "''[]''"] by (simp add: is_array_def)
  moreover from p have "last d = CHR ''*''"
    using endswith_last [of d "''*''"] by (simp add: is_pointer_def)
  ultimately show False by simp
qed

lemma array_suffix: "is_array (b @ ''[]'')" and pointer_suffix: "is_pointer (b @ ''*'')"
  by (simp_all add: is_array_def is_pointer_def endswith_def)

lemma classifications_le_1: "classifications d \<le> 1"
  using primitive_not_array [of d] primitive_not_pointer [of d] array_not_pointer [of d]
  by (auto simp: classifications_def)

text \<open>
  Claim C3, as amended.  For every descriptor string at most one of the three
  classifications holds.  Exactly one holds for every descriptor of the vocabulary: a
  primitive name, a primitive name followed by \<^verbatim>\<open>[]\<close>, and a primitive name followed by
  \<^verbatim>\<open>*\<close>.  (Other strings may satisfy none.)
\<close>

theorem classification_at_most_one:
  "\<not> (is_primitive d \<and> is_array d) \<and> \<not> (is_primitive d \<and> is_pointer d)
   \<and> \<not> (is_array d \<and> is_pointer d) \<and> classifications d \<le> 1
   \<and> (is_primitive b \<longrightarrow>
        classifications b = 1 \<and> classifications (b @ ''[]'') = 1
        \<and> classifications (b @ ''*'') = 1)"
proof -
  have one: "classifications x = 1" if "is_primitive x \<or> is_array x \<or> is_pointer x" for x
    using that primitive_not_array [of x] primitive_not_pointer [of x]
      array_not_pointer [of x]
    by (auto simp: classifications_def)
  show ?thesis
    using primitive_not_array [of d] primitive_not_pointer [of d] array_not_pointer [of d]
      classifications_le_1 [of d] one [of b] one [of "b @ ''[]''"] one [of "b @ ''*''"]
      array_suffix [of b] pointer_suffix [of b]
    by blast
qed

theorem classification_at_most_one_witness:
  "is_primitive ''uint'' \<and> classifications ''uint'' = 1
   \<and> classifications ''uint[]'' = 1 \<and> classifications ''uint*'' = 1"
  using classification_at_most_one [of "''uint''" "''uint''"]
  by (simp add: is_primitive_def)

text \<open>The descriptor \<^verbatim>\<open>'foo'\<close> is neither primitive, nor an array, nor a pointer.\<close>

theorem classification_none_counterexample:
  "\<not> is_primitive ''foo'' \<and> \<not> is_array ''foo'' \<and> \<not> is_pointer ''foo''
   \<and> classifications ''foo'' = 0"
  by (simp add: classifications_def is_primitive_def is_array_def is_pointer_def endswith_def)

text \<open>
  Claim C4, as amended.  \<^verbatim>\<open>primitive_size\<close> never raises and its result is not
  negative; it is 1 for \<^verbatim>\<open>uchar\<close>, 2 for \<^verbatim>\<open>ushort\<close>, 4 for \<^verbatim>\<open>uint\<close>, 1 for \<^verbatim>\<open>char\<close>, 2 for
  \<^verbatim>\<open>short\<close>, 4 for \<^verbatim>\<open>int\<close>, 4 for \<^verbatim>\<open>float\<close>, 8 for \<^verbatim>\<open>double\<close>, and 0 for \<^verbatim>\<open>string\<close>,
  for \<^verbatim>\<open>cstring\<close> and for every descriptor that is not primitive, the array- and
  pointer-marked ones among them.
\<close>

theorem primitive_size_table:
  "primitive_size ''uchar'' = Inr 1 \<and> primitive_size ''ushort'' = Inr 2
   \<and> primitive_size ''uint'' = Inr 4 \<and> primitive_size ''char'' = Inr 1
   \<and> primitive_size ''short'' = Inr 2 \<and> primitive_size ''int'' = Inr 4
   \<and> primitive_size ''float'' = Inr 4 \<and> primitive_size ''double'' = Inr 8
   \<and> primitive_size ''string'' = Inr 0 \<and> primitive_size ''cstring'' = Inr 0
   \<and> (\<not> is_primitive d \<longrightarrow> primitive_size d = Inr 0)
   \<and> (is_array d \<or> is_pointer d \<longrightarrow> primitive_size d = Inr 0)
   \<and> (\<exists>n. primitive_size d = Inr n \<and> 0 \<le> n)"
proof -
  have tab: "primitive_size ''uchar'' = Inr 1" "primitive_size ''ushort'' = Inr 2"
    "primitive_size ''uint'' = Inr 4" "primitive_size ''char'' = Inr 1"
    "primitive_size ''short'' = Inr 2" "primitive_size ''int'' = Inr 4"
    "primitive_size ''float'' = Inr 4" "primitive_size ''double'' = Inr 8"
    "primitive_size ''string'' = Inr 0" "primitive_size ''cstring'' = Inr 0"
    by (simp_all add: primitive_size_def is_primitive_def primitive_sizes_def)
  have np: "\<not> is_primitive d \<Longrightarrow> primitive_size d = Inr 0"
    by (simp add: primitive_size_def)
  have tot: "\<exists>n. primitive_size d = Inr n \<and> 0 \<le> n"
  proof (cases "is_primitive d")
    case True
    then show ?thesis unfolding is_primitive_cases using tab by auto
  next
    case False
    then show ?thesis by (simp add: np)
  qed
  have ap: "is_array d \<or> is_pointer d \<Longrightarrow> primitive_size d = Inr 0"
    using np primitive_not_array primitive_not_pointer by blast
  show ?thesis using tab np tot ap by simp
qed

theorem primitive_size_table_witness:
  "\<not> is_primitive ''uint[]'' \<and> is_array ''uint[]''
   \<and> primitive_size ''uint[]'' = Inr 0 \<and> primitive_size ''uint'' = Inr 4"
  using primitive_size_table [of "''uint[]''"]
  by (simp add: is_primitive_def is_array_def endswith_def)

text \<open>The width of \<^verbatim>\<open>char\<close> is 1, not 4.\<close>

theorem primitive_size_char_counterexample:
  "primitive_size ''char'' = Inr 1 \<and> primitive_size ''char'' \<noteq> Inr 4"
  by (simp add: primitive_size_def is_primitive_def primitive_sizes_def)

section \<open>Positioning and raw reads\<close>




lemma seek_result:
  assumes "seek f p whence = Inr f1"
  shows "tell f1 = (if whence = ''start'' then p else tell f + p)"
    and "content f1 = content f" and "fs_max f1 = fs_max f" and "alloc_max f1 = alloc_max f"
    and "pos f1 \<le> max_offset f"
  using assms
  by (auto simp: seek_def file_seek_set_def file_seek_cur_def tell_def max_offset_def
      split: if_splits)

lemma seek_fails_keeps: "seek f p whence = Inl e \<Longrightarrow> e \<noteq> InvalidType t"
  by (auto simp: seek_def file_seek_set_def file_seek_cur_def split: if_splits)




lemma max_read_bound: "int (max_read f) \<le> 2 ^ 63 - 34" "max_read f \<le> alloc_max f"
  by (simp_all add: max_read_def min_def)

lemma file_read_ok:
  assumes "0 \<le> n" and "n \<le> int (max_read f)"
  shows "file_read f n
           = (Inr (take (nat n) (drop (pos f) (content f))),
              f\<lparr>pos := pos f + length (take (nat n) (drop (pos f) (content f)))\<rparr>)"
proof -
  have "n \<le> 2 ^ 63 - 34" "n \<le> int (alloc_max f)"
    using assms(2) max_read_bound [of f] by linarith+
  then show ?thesis
    using assms(1) by (simp add: file_read_def Let_def)
qed

text \<open>
  Claim C2, as amended.  When the seek of \<^verbatim>\<open>read_chunk(offset, size, whence)\<close> succeeds
  and \<open>size\<close> is not negative and not larger than the largest length a read can ask for,
  the call returns the bytes from the new position on, up to \<open>size\<close> of them: exactly
  \<open>size\<close> bytes when that many are left in the file, and the shorter rest of the file,
  with no error, when fewer are left.  The cursor moves past the bytes returned.
\<close>

theorem read_chunk_result:
  assumes "seek f offset whence = Inr f1" and "0 \<le> sz" and "sz \<le> int (max_read f)"
  shows "fst (read_chunk f offset sz whence)
           = Inr (take (nat sz) (drop (pos f1) (content f)))
         \<and> length (take (nat sz) (drop (pos f1) (content f)))
           = min (nat sz) (length (content f) - pos f1)
         \<and> tell (snd (read_chunk f offset sz whence))
           = tell f1 + int (min (nat sz) (length (content f) - pos f1))"
proof -
  have c: "content f1 = content f" and "alloc_max f1 = alloc_max f"
    using seek_result [OF assms(1)] by simp_all
  then have "sz \<le> int (max_read f1)"
    using assms(3) by (simp add: max_read_def)
  from file_read_ok [OF assms(2) this] show ?thesis
    using assms(1) c by (simp add: read_chunk_def tell_def min_def)
qed

theorem read_chunk_result_witness:
  "seek (fresh\<lparr>content := [1, 2, 3, 4, 5]\<rparr>) 1 ''start''
     = Inr (fresh\<lparr>content := [1, 2, 3, 4, 5], pos := 1\<rparr>)
   \<and> (0::int) \<le> 2 \<and> 2 \<le> int (max_read (fresh\<lparr>content := [1, 2, 3, 4, 5]\<rparr>))
   \<and> fst (read_chunk (fresh\<lparr>content := [1, 2, 3, 4, 5]\<rparr>) 1 2 ''start'') = Inr [2, 3]
   \<and> tell (snd (read_chunk (fresh\<lparr>content := [1, 2, 3, 4, 5]\<rparr>) 1 2 ''start'')) = 3"
proof -
  have s: "seek (fresh\<lparr>content := [1, 2, 3, 4, 5]\<rparr>) 1 ''start''
             = Inr (fresh\<lparr>content := [1, 2, 3, 4, 5], pos := 1\<rparr>)"
    by (simp add: seek_def file_seek_set_def fresh_def max_offset_def)
  have m: "2 \<le> int (max_read (fresh\<lparr>content := [1, 2, 3, 4, 5]\<rparr>))"
    by (simp add: max_read_def fresh_def)
  show ?thesis
    using s m read_chunk_result [OF s _ m] by (simp add: tell_def fresh_def)
qed

text \<open>
  Two bytes are left and four are asked for: the call returns the two bytes and raises
  nothing.
\<close>

theorem read_chunk_short_counterexample:
  "read_chunk (fresh\<lparr>content := [1, 2]\<rparr>) 0 4 ''start''
     = (Inr [1, 2], fresh\<lparr>content := [1, 2], pos := 2\<rparr>)"
  by (simp add: read_chunk_def seek_def file_seek_set_def file_read_def Let_def fresh_def
      max_offset_def)

section \<open>Byte order\<close>

lemma be_bytes_1: "be_bytes 1 n = [of_nat n]"
  by simp

lemma be_bytes_2: "be_bytes 2 n = [of_nat (n div 256), of_nat n]"
proof -
  have "be_bytes (Suc (Suc 0)) n = [of_nat (n div 256), of_nat n]"
    by simp
  then show ?thesis by (simp add: numeral_2_eq_2)
qed

lemma be_bytes_4:
  "be_bytes 4 n = [of_nat (n div 256 div 256 div 256), of_nat (n div 256 div 256),
                   of_nat (n div 256), of_nat n]"
proof -
  have "be_bytes (Suc (Suc (Suc (Suc 0)))) n
          = [of_nat (n div 256 div 256 div 256), of_nat (n div 256 div 256),
             of_nat (n div 256), of_nat n]"
    by simp
  moreover have "(4::nat) = Suc (Suc (Suc (Suc 0)))"
    by simp
  ultimately show ?thesis by metis
qed

text \<open>The scenario on any platform that holds four bytes.\<close>

lemma scenario_uint_any_platform:
  assumes "4 \<le> m" and "4 \<le> a"
  defines "g \<equiv> \<lparr>content = [], pos = 0, fs_max = m, alloc_max = a\<rparr>"
  shows "fst (write_data g ''uint'' (PInt 0x01020304) 0 0 ''start'') = Inr 4"
    and "fst (read_chunk (snd (write_data g ''uint'' (PInt 0x01020304) 0 0 ''start''))
              0 4 ''start'') = Inr [0x01, 0x02, 0x03, 0x04]"
    and "fst (read (snd (write_data g ''uint'' (PInt 0x01020304) 0 0 ''start''))
              ''uint'' 0 0 ''start'') = Inr (PInt 0x01020304)"
proof -
  have w: "write_data g ''uint'' (PInt 0x01020304) 0 0 ''start''
             = (Inr 4, g\<lparr>content := [1, 2, 3, 4], pos := 4\<rparr>)"
    using assms(1)
    by (simp add: write_data_def g_def seek_def file_seek_set_def write_packed_def
        struct_pack_def pack_format_def pack_unsigned_def file_write_def be_bytes_4
        max_offset_def put_bytes_def Let_def min_def)
  show "fst (write_data g ''uint'' (PInt 0x01020304) 0 0 ''start'') = Inr 4"
    by (simp add: w)
  show "fst (read_chunk (snd (write_data g ''uint'' (PInt 0x01020304) 0 0 ''start''))
              0 4 ''start'') = Inr [0x01, 0x02, 0x03, 0x04]"
    unfolding w using assms
    by (simp add: read_chunk_def seek_def file_seek_set_def file_read_def Let_def g_def
        max_offset_def min_def)
  show "fst (read (snd (write_data g ''uint'' (PInt 0x01020304) 0 0 ''start''))
              ''uint'' 0 0 ''start'') = Inr (PInt 0x01020304)"
    unfolding w using assms
    by (simp add: read_def seek_def file_seek_set_def file_read_def read_unpack_def
        struct_unpack_def unpack_unsigned_def be_nat_def Let_def g_def max_offset_def
        min_def)
qed

text \<open>
  Claim C8.  On a fresh file, writing the \<^verbatim>\<open>uint\<close> value \<open>0x01020304\<close> at offset 0 writes
  four bytes; \<^verbatim>\<open>read_chunk(0, 4)\<close> then returns the bytes \<open>01 02 03 04\<close>, most significant
  first, and \<^verbatim>\<open>read('uint', 0)\<close> returns \<open>0x01020304\<close>.
\<close>

theorem scenario_uint:
  "fst (write_data fresh ''uint'' (PInt 0x01020304) 0 0 ''start'') = Inr 4
   \<and> fst (read_chunk (snd (write_data fresh ''uint'' (PInt 0x01020304) 0 0 ''start''))
            0 4 ''start'') = Inr [0x01, 0x02, 0x03, 0x04]
   \<and> fst (read (snd (write_data fresh ''uint'' (PInt 0x01020304) 0 0 ''start''))
            ''uint'' 0 0 ''start'') = Inr (PInt 0x01020304)"
proof -
  have w: "write_data fresh ''uint'' (PInt 0x01020304) 0 0 ''start''
             = (Inr 4, fresh\<lparr>content := [1, 2, 3, 4], pos := 4\<rparr>)"
    by (simp add: write_data_def fresh_def seek_def file_seek_set_def write_packed_def
        struct_pack_def pack_format_def pack_unsigned_def file_write_def be_bytes_4
        max_offset_def put_bytes_def Let_def)
  show ?thesis
    unfolding w
    by (simp add: read_chunk_def read_def seek_def file_seek_set_def file_read_def
        read_unpack_def struct_unpack_def unpack_unsigned_def be_nat_def Let_def
        fresh_def max_offset_def)
qed

section \<open>Errors of typed reads and writes\<close>

lemma struct_unpack_error: "struct_unpack fmt bs = Inl e \<Longrightarrow> e = StructError"
  by (auto simp: struct_unpack_def unpack_unsigned_def unpack_signed_def unpack_float_def
      unpack_double_def Let_def split: if_splits)

lemma file_read_error:
  "0 \<le> n \<Longrightarrow> fst (file_read f n) = Inl e \<Longrightarrow> e = OverflowError \<or> e = MemoryError"
  by (auto simp: file_read_def Let_def split: if_splits)

lemma file_read_keeps:
  "fs_max (snd (file_read f n)) = fs_max f \<and> alloc_max (snd (file_read f n)) = alloc_max f
   \<and> content (snd (file_read f n)) = content f"
  by (simp add: file_read_def Let_def)

lemma read_unpack_error:
  assumes "0 \<le> n" and "fst (read_unpack fmt n f) = Inl e"
  shows "e = StructError \<or> e = OverflowError \<or> e = MemoryError"
proof (cases "file_read f n")
  case (Pair r f1)
  show ?thesis
  proof (cases r)
    case (Inl e')
    with Pair assms(2) have "fst (file_read f n) = Inl e"
      by (simp add: read_unpack_def)
    from file_read_error [OF assms(1) this] show ?thesis by simp
  next
    case (Inr bs)
    with Pair assms(2) have "struct_unpack fmt bs = Inl e"
      by (simp add: read_unpack_def)
    then show ?thesis by (simp add: struct_unpack_error)
  qed
qed

lemma read_byte_error:
  "fst (read_byte f) = Inl e \<Longrightarrow> e = IndexError \<or> e = OverflowError \<or> e = MemoryError"
proof (cases "file_read f 1")
  case (Pair r f1)
  assume a: "fst (read_byte f) = Inl e"
  show ?thesis
  proof (cases r)
    case (Inl e')
    with Pair a have "fst (file_read f 1) = Inl e"
      by (simp add: read_byte_def)
    from file_read_error [OF _ this] show ?thesis by simp
  next
    case (Inr bs)
    with Pair a show ?thesis
      by (cases bs) (simp_all add: read_byte_def)
  qed
qed

lemma read_string_loop_error:
  "fst (read_string_loop f s) = Inl e \<Longrightarrow>
   e = IndexError \<or> e = OverflowError \<or> e = MemoryError"
proof (induction f s rule: read_string_loop.induct)
  case (1 f s)
  show ?case
  proof (cases "fst (read_byte f)")
    case (Inl e')
    with "1.prems" have "e' = e"
      by (simp add: read_string_loop.simps [of f s] Let_def)
    with Inl read_byte_error [of f e] show ?thesis
      by simp
  next
    case (Inr b)
    show ?thesis
    proof (cases "b = 0")
      case True
      with Inr "1.prems" show ?thesis
        by (simp add: read_string_loop.simps [of f s] Let_def)
    next
      case False
      with Inr "1.prems"
      have "fst (read_string_loop (snd (read_byte f)) (s @ [unat b])) = Inl e"
        by (simp add: read_string_loop.simps [of f s] Let_def)
      with "1.IH" [OF refl Inr False] show ?thesis .
    qed
  qed
qed

lemma pack_format_error:
  "pack_format fmt v = Inl e \<Longrightarrow> e = StructError \<or> e = OverflowError"
  by (auto simp: pack_format_def pack_unsigned_def pack_signed_def pack_float_def
      pack_double_def as_double_def double_to_single_def Let_def
      split: if_splits pyval.splits sum.splits)

lemma pack_error:
  "struct_pack fmt v = Inl e \<Longrightarrow> e = StructError \<or> e = OverflowError"
  using pack_format_error [of fmt v]
  by (auto simp: struct_pack_def split: pyval.splits sum.splits error.splits)

lemma bytes_ascii_error:
  "bytes_ascii v = Inl e \<Longrightarrow> e = TypeError \<or> e = UnicodeEncodeError"
  by (auto simp: bytes_ascii_def split: pyval.splits if_splits)

lemma write_packed_error: "fst (write_packed f r) = Inl e \<Longrightarrow> r = Inl e \<or> e = OSError"
  by (cases r) (auto simp: write_packed_def file_write_def Let_def split: if_splits)

lemma read_primitive_no_ValueError:
  assumes "seek f (base + offset) whence = Inr f1" and "is_primitive type"
  shows "\<not> raises_ValueError (fst (read f type base offset whence))"
proof -
  have u: "\<not> raises_ValueError (fst (read_unpack fmt n f1))" if "0 \<le> n" for fmt n
    using read_unpack_error [OF that, of fmt f1]
    by (cases "fst (read_unpack fmt n f1)") (auto simp: raises_ValueError_def)
  have s: "\<not> raises_ValueError (fst (read_string f1))"
    using read_string_loop_error [of f1 "[]"]
    by (cases "fst (read_string f1)") (auto simp: raises_ValueError_def read_string_def)
  show ?thesis
    using assms u s by (auto simp: read_def is_primitive_cases)
qed

lemma read_not_primitive:
  assumes "seek f (base + offset) whence = Inr f1" and "\<not> is_primitive type"
  shows "read f type base offset whence = (Inl (InvalidType type), f1)"
  using assms by (simp add: read_def is_primitive_cases)

lemma read_seek_fails:
  "seek f (base + offset) whence = Inl e \<Longrightarrow> read f type base offset whence = (Inl e, f)"
  by (simp add: read_def)

lemma read_ValueError_iff:
  assumes "seek f (base + offset) whence = Inr f1"
  shows "raises_ValueError (fst (read f type base offset whence)) = (\<not> is_primitive type)
         \<and> (fst (read f type base offset whence) = Inl (InvalidType type))
             = (\<not> is_primitive type)"
proof (cases "is_primitive type")
  case True
  from read_primitive_no_ValueError [OF assms True]
  show ?thesis using True by (auto simp: raises_ValueError_def)
next
  case False
  from read_not_primitive [OF assms False]
  show ?thesis using False by (simp add: raises_ValueError_def)
qed

lemma read_InvalidType_seek:
  assumes "fst (read f type base offset whence) = Inl (InvalidType t)"
  shows "seek f (base + offset) whence = Inr (snd (read f type base offset whence))"
proof (cases "seek f (base + offset) whence")
  case (Inl e)
  with assms seek_fails_keeps [OF Inl, of t] show ?thesis
    by (simp add: read_seek_fails)
next
  case (Inr f1)
  show ?thesis
  proof (cases "is_primitive type")
    case True
    from read_primitive_no_ValueError [OF Inr True] assms show ?thesis
      by (simp add: raises_ValueError_def)
  next
    case False
    from read_not_primitive [OF Inr False] Inr show ?thesis by simp
  qed
qed

lemma read_InvalidType_only:
  assumes "fst (read f type base offset whence) = Inl (InvalidType t)"
  shows "\<not> is_primitive type \<and> t = type"
proof -
  from read_InvalidType_seek [OF assms] obtain f1
    where s: "seek f (base + offset) whence = Inr f1"
    by blast
  show ?thesis
  proof (cases "is_primitive type")
    case True
    from read_primitive_no_ValueError [OF s True] assms show ?thesis
      by (simp add: raises_ValueError_def)
  next
    case False
    from read_not_primitive [OF s False] assms False show ?thesis
      by simp
  qed
qed

lemma read_rejects_not_primitive:
  assumes "\<not> is_primitive type"
  shows "isl (fst (read f type base offset whence))"
proof (cases "seek f (base + offset) whence")
  case (Inl e)
  then show ?thesis by (simp add: read_seek_fails)
next
  case (Inr f1)
  from read_not_primitive [OF Inr assms] show ?thesis by simp
qed

lemma seek_error_kinds:
  assumes "seek f p whence = Inl e"
  shows "e = InvalidWhence whence \<and> whence \<noteq> ''start'' \<and> whence \<noteq> ''current''
         \<or> e = OffsetValueError \<and> (p < - (2 ^ 63) \<or> 2 ^ 63 \<le> p)
         \<or> e = OSError"
  using assms
  by (auto simp: seek_def file_seek_set_def file_seek_cur_def split: if_splits)

text \<open>
  Claim C5, as amended.  \<^verbatim>\<open>read(type, base, offset, whence)\<close> seeks first.  When the seek
  fails, the call raises the error of the seek and leaves the handle as it was, whatever
  the descriptor: a \<^verbatim>\<open>ValueError\<close> for a \<^verbatim>\<open>whence\<close> other than \<^verbatim>\<open>'start'\<close> and \<^verbatim>\<open>'current'\<close>
  or for an offset outside the offset type, an \<^verbatim>\<open>OSError\<close> otherwise.  When the seek
  succeeds, the call raises \<^verbatim>\<open>ValueError\<close> if and only if \<^verbatim>\<open>type\<close> is not one of the nine
  primitive names, and the error then is the one for the invalid \<^verbatim>\<open>type\<close>.  So the error
  for an invalid \<^verbatim>\<open>type\<close> is raised exactly when the seek succeeds and \<^verbatim>\<open>type\<close> is not
  primitive, and a descriptor that is not primitive is rejected by every call.
\<close>

theorem read_invalid_descriptor:
  "((fst (read f type base offset whence) = Inl (InvalidType t))
      = (t = type \<and> \<not> is_primitive type \<and> \<not> isl (seek f (base + offset) whence)))
   \<and> (\<not> is_primitive type \<longrightarrow> isl (fst (read f type base offset whence)))
   \<and> (\<forall>f1. seek f (base + offset) whence = Inr f1 \<longrightarrow>
         raises_ValueError (fst (read f type base offset whence)) = (\<not> is_primitive type))
   \<and> (\<forall>e. seek f (base + offset) whence = Inl e \<longrightarrow>
         read f type base offset whence = (Inl e, f)
         \<and> (e = InvalidWhence whence \<and> whence \<noteq> ''start'' \<and> whence \<noteq> ''current''
            \<or> e = OffsetValueError \<and> (base + offset < - (2 ^ 63) \<or> 2 ^ 63 \<le> base + offset)
            \<or> e = OSError))"
proof (intro conjI allI impI)
  show "(fst (read f type base offset whence) = Inl (InvalidType t))
          = (t = type \<and> \<not> is_primitive type \<and> \<not> isl (seek f (base + offset) whence))"
  proof
    assume a: "fst (read f type base offset whence) = Inl (InvalidType t)"
    from read_InvalidType_only [OF a] read_InvalidType_seek [OF a]
    show "t = type \<and> \<not> is_primitive type \<and> \<not> isl (seek f (base + offset) whence)"
      by simp
  next
    assume a: "t = type \<and> \<not> is_primitive type \<and> \<not> isl (seek f (base + offset) whence)"
    then obtain f1 where "seek f (base + offset) whence = Inr f1"
      by (cases "seek f (base + offset) whence") auto
    from read_not_primitive [OF this] a
    show "fst (read f type base offset whence) = Inl (InvalidType t)"
      by simp
  qed
next
  assume "\<not> is_primitive type"
  then show "isl (fst (read f type base offset whence))"
    by (rule read_rejects_not_primitive)
next
  fix f1
  assume "seek f (base + offset) whence = Inr f1"
  from read_ValueError_iff [OF this]
  show "raises_ValueError (fst (read f type base offset whence)) = (\<not> is_primitive type)"
    by simp
next
  fix e
  assume "seek f (base + offset) whence = Inl e"
  then show "read f type base offset whence = (Inl e, f)"
    by (rule read_seek_fails)
next
  fix e
  assume "seek f (base + offset) whence = Inl e"
  from seek_error_kinds [OF this]
  show "e = InvalidWhence whence \<and> whence \<noteq> ''start'' \<and> whence \<noteq> ''current''
        \<or> e = OffsetValueError \<and> (base + offset < - (2 ^ 63) \<or> 2 ^ 63 \<le> base + offset)
        \<or> e = OSError" .
qed

theorem read_invalid_descriptor_witness:
  "seek fresh (0 + 0) ''start'' = Inr fresh
   \<and> \<not> is_primitive ''uint[]''
   \<and> fst (read fresh ''uint[]'' 0 0 ''start'') = Inl (InvalidType ''uint[]'')
   \<and> raises_ValueError (fst (read fresh ''uint[]'' 0 0 ''start''))
   \<and> seek fresh (0 + 0) ''end'' = Inl (InvalidWhence ''end'')
   \<and> read fresh ''uint[]'' 0 0 ''end'' = (Inl (InvalidWhence ''end''), fresh)"
proof -
  have s: "seek fresh (0 + 0) ''start'' = Inr fresh"
    by (simp add: seek_def file_seek_set_def fresh_def max_offset_def)
  have e: "seek fresh (0 + 0) ''end'' = Inl (InvalidWhence ''end'')"
    by (simp add: seek_def)
  have n: "\<not> is_primitive ''uint[]''"
    by (simp add: is_primitive_def)
  show ?thesis
    using s e n read_invalid_descriptor [of fresh "''uint[]''" 0 0 "''start''" "''uint[]''"]
      read_invalid_descriptor [of fresh "''uint[]''" 0 0 "''end''" "''uint[]''"]
    by (simp add: raises_ValueError_def)
qed

text \<open>
  With the \<^verbatim>\<open>whence\<close> \<^verbatim>\<open>'end'\<close> the call raises \<^verbatim>\<open>ValueError\<close> for the primitive \<^verbatim>\<open>uint\<close>; at
  the position \<open>-1\<close> the call raises \<^verbatim>\<open>OSError\<close>, no \<^verbatim>\<open>ValueError\<close>, for \<^verbatim>\<open>foo\<close>, which is
  not primitive.
\<close>

theorem read_invalid_descriptor_counterexample:
  "is_primitive ''uint'' \<and> raises_ValueError (fst (read fresh ''uint'' 0 0 ''end''))
   \<and> \<not> is_primitive ''foo'' \<and> fst (read fresh ''foo'' (- 1) 0 ''start'') = Inl OSError
   \<and> \<not> raises_ValueError (fst (read fresh ''foo'' (- 1) 0 ''start''))"
  by (simp add: is_primitive_def raises_ValueError_def read_def seek_def file_seek_set_def)

lemma write_seek_fails:
  "seek f (base + offset) whence = Inl e \<Longrightarrow>
   write_data f type data base offset whence = (Inl e, f)"
  by (simp add: write_data_def)

lemma write_InvalidType_seek:
  assumes "fst (write_data f type data base offset whence) = Inl (InvalidType t)"
  shows "seek f (base + offset) whence = Inr (snd (write_data f type data base offset whence))"
proof (cases "seek f (base + offset) whence")
  case (Inl e)
  with assms seek_fails_keeps [OF Inl, of t] show ?thesis
    by (simp add: write_seek_fails)
next
  case (Inr f1)
  have p: "fst (write_packed f1 (struct_pack fmt data)) \<noteq> Inl (InvalidType t)" for fmt
    using write_packed_error [of f1 "struct_pack fmt data" "InvalidType t"]
      pack_error [of fmt data "InvalidType t"] by auto
  have b: "fst (write_packed f1
             (case bytes_ascii data of Inl e \<Rightarrow> Inl e | Inr bs \<Rightarrow> Inr (bs @ [0])))
           \<noteq> Inl (InvalidType t)"
    using write_packed_error [of f1 _ "InvalidType t"] bytes_ascii_error [of data "InvalidType t"]
    by (auto split: sum.splits)
  show ?thesis
    using assms Inr p b by (auto simp: write_data_def split: if_splits)
qed

text \<open>
  Claim C10.  When \<^verbatim>\<open>read\<close> or \<^verbatim>\<open>write\<close> fails because of the descriptor, the seek has
  been done: the handle the call leaves is the one the seek produced, its cursor at
  \<open>base + offset\<close> for \<^verbatim>\<open>'start'\<close> and at the old cursor plus \<open>base + offset\<close> for
  \<^verbatim>\<open>'current'\<close>.
\<close>

theorem invalid_descriptor_after_seek:
  "(fst (read f type base offset whence) = Inl (InvalidType t) \<longrightarrow>
      seek f (base + offset) whence = Inr (snd (read f type base offset whence))
      \<and> tell (snd (read f type base offset whence))
          = (if whence = ''start'' then base + offset else tell f + (base + offset)))
   \<and> (fst (write_data f type data base offset whence) = Inl (InvalidType t) \<longrightarrow>
      seek f (base + offset) whence
        = Inr (snd (write_data f type data base offset whence))
      \<and> tell (snd (write_data f type data base offset whence))
          = (if whence = ''start'' then base + offset else tell f + (base + offset)))"
  using read_InvalidType_seek [of f type base offset whence t]
    write_InvalidType_seek [of f type data base offset whence t]
    seek_result(1) [of f "base + offset" whence]
  by metis

theorem invalid_descriptor_after_seek_witness:
  "read fresh ''uint*'' 5 2 ''start'' = (Inl (InvalidType ''uint*''), fresh\<lparr>pos := 7\<rparr>)
   \<and> tell (snd (read fresh ''uint*'' 5 2 ''start'')) = 5 + 2
   \<and> tell fresh = 0
   \<and> write_data fresh ''uint*'' (PInt 1) 5 2 ''start''
       = (Inl (InvalidType ''uint*''), fresh\<lparr>pos := 7\<rparr>)
   \<and> tell (snd (write_data fresh ''uint*'' (PInt 1) 5 2 ''start'')) = 5 + 2"
proof -
  have r: "read fresh ''uint*'' 5 2 ''start'' = (Inl (InvalidType ''uint*''), fresh\<lparr>pos := 7\<rparr>)"
    by (simp add: read_def seek_def file_seek_set_def fresh_def max_offset_def)
  have w: "write_data fresh ''uint*'' (PInt 1) 5 2 ''start''
             = (Inl (InvalidType ''uint*''), fresh\<lparr>pos := 7\<rparr>)"
    by (simp add: write_data_def seek_def file_seek_set_def fresh_def max_offset_def)
  show ?thesis
    using r w invalid_descriptor_after_seek [of fresh "''uint*''" 5 2 "''start''" "''uint*''" "PInt 1"]
    by (simp add: tell_def fresh_def)
qed

lemma write_out_of_range:
  assumes "int_range type = Some (lo, hi)" and "n < lo \<or> hi < n"
    and "seek f (base + offset) whence = Inr f1"
  shows "write_data f type (PInt n) base offset whence = (Inl StructError, f1)"
  using assms
  by (auto simp: int_range_def write_data_def write_packed_def struct_pack_def
      pack_format_def pack_unsigned_def pack_signed_def split: if_splits)

lemma write_non_ascii:
  assumes "\<exists>c \<in> set s. 128 \<le> c"
    and "seek f (base + offset) whence = Inr f1"
  shows "write_data f ''string'' (PStr s) base offset whence = (Inl UnicodeEncodeError, f1)"
proof -
  have "\<not> list_all (\<lambda>c. c < 128) s"
    using assms(1) by (force simp: list_all_iff not_less)
  then show ?thesis
    using assms(2) by (simp add: write_data_def write_packed_def bytes_ascii_def)
qed

text \<open>
  Claim C9.  Writing an integer outside the range of an integer descriptor fails, and
  writing a \<^verbatim>\<open>string\<close> with a character beyond ASCII fails: no count is returned.  When
  the seek succeeds the error is the encoding error (\<^verbatim>\<open>struct.error\<close> for the integer,
  \<^verbatim>\<open>UnicodeEncodeError\<close> for the string) and nothing has been written.
\<close>

theorem write_rejects_unencodable:
  "(int_range type = Some (lo, hi) \<and> (n < lo \<or> hi < n) \<longrightarrow>
      isl (fst (write_data f type (PInt n) base offset whence))
      \<and> (\<forall>f1. seek f (base + offset) whence = Inr f1 \<longrightarrow>
            write_data f type (PInt n) base offset whence = (Inl StructError, f1)))
   \<and> ((\<exists>c \<in> set s. 128 \<le> c) \<longrightarrow>
      isl (fst (write_data f ''string'' (PStr s) base offset whence))
      \<and> (\<forall>f1. seek f (base + offset) whence = Inr f1 \<longrightarrow>
            write_data f ''string'' (PStr s) base offset whence
              = (Inl UnicodeEncodeError, f1)))"
proof (intro conjI impI allI)
  assume a: "int_range type = Some (lo, hi) \<and> (n < lo \<or> hi < n)"
  show "isl (fst (write_data f type (PInt n) base offset whence))"
  proof (cases "seek f (base + offset) whence")
    case (Inl e)
    then show ?thesis by (simp add: write_seek_fails)
  next
    case (Inr f1)
    with a show ?thesis by (simp add: write_out_of_range)
  qed
next
  fix f1
  assume "int_range type = Some (lo, hi) \<and> (n < lo \<or> hi < n)"
    and "seek f (base + offset) whence = Inr f1"
  then show "write_data f type (PInt n) base offset whence = (Inl StructError, f1)"
    by (simp add: write_out_of_range)
next
  assume a: "\<exists>c \<in> set s. 128 \<le> c"
  show "isl (fst (write_data f ''string'' (PStr s) base offset whence))"
  proof (cases "seek f (base + offset) whence")
    case (Inl e)
    then show ?thesis by (simp add: write_seek_fails)
  next
    case (Inr f1)
    with a show ?thesis by (simp add: write_non_ascii)
  qed
next
  fix f1
  assume "\<exists>c \<in> set s. 128 \<le> c" and "seek f (base + offset) whence = Inr f1"
  then show "write_data f ''string'' (PStr s) base offset whence = (Inl UnicodeEncodeError, f1)"
    by (simp add: write_non_ascii)
qed

theorem write_rejects_unencodable_witness:
  "int_range ''uchar'' = Some (0, 255) \<and> (255::int) < 256
   \<and> write_data fresh ''uchar'' (PInt 256) 0 0 ''start'' = (Inl StructError, fresh)
   \<and> (\<exists>c \<in> set [104, 233 :: nat]. 128 \<le> c)
   \<and> write_data fresh ''string'' (PStr [104, 233]) 0 0 ''start''
       = (Inl UnicodeEncodeError, fresh)"
proof -
  have s: "seek fresh (0 + 0) ''start'' = Inr fresh"
    by (simp add: seek_def file_seek_set_def fresh_def max_offset_def)
  have r: "int_range ''uchar'' = Some (0, 255)"
    by (simp add: int_range_def)
  have c: "\<exists>c \<in> set [104, 233 :: nat]. 128 \<le> c"
    by simp
  show ?thesis
    using s r c write_rejects_unencodable [of "''uchar''" 0 255 256 fresh 0 0 "''start''" "[104, 233]"]
    by simp
qed

section \<open>Round trips\<close>
















section \<open>Conversion between binary64 and binary32\<close>

lemma pack_div_mod:
  fixes a b c :: nat
  assumes "b < c"
  shows "(a * c + b) div c = a" and "(a * c + b) mod c = b"
  using assms by simp_all

lemma rne_exact: "s mod 2 ^ sh = 0 \<Longrightarrow> rne s sh = s div 2 ^ sh"
  by (simp add: rne_def Let_def)

lemma bitlen_eq: "2 ^ k \<le> n \<Longrightarrow> n < 2 ^ Suc k \<Longrightarrow> bitlen n = Suc k"
proof (induction k arbitrary: n)
  case 0
  then have "n = 1" by simp
  then show ?case by (simp add: bitlen.simps [of "Suc 0"] bitlen.simps [of 0])
next
  case (Suc k)
  have "2 ^ k \<le> n div 2" "n div 2 < 2 ^ Suc k"
    using Suc.prems by auto
  then have "bitlen (n div 2) = Suc k"
    by (rule Suc.IH)
  moreover have "n \<noteq> 0"
  proof
    assume "n = 0"
    with Suc.prems(1) have "(2::nat) ^ Suc k = 0" by simp
    then show False by simp
  qed
  ultimately show ?case
    by (simp add: bitlen.simps [of n])
qed

lemma single_fields:
  assumes "sb \<le> 1" and "fe < 256" and "fm < 2 ^ 23"
  defines "x \<equiv> sb * 2 ^ 31 + (fe * 2 ^ 23 + fm)"
  shows "unat (of_nat x :: 32 word) = x"
    and "x div 2 ^ 31 = sb" and "x mod 2 ^ 31 div 2 ^ 23 = fe"
    and "x mod 2 ^ 31 mod 2 ^ 23 = fm"
proof -
  have a: "fe * 2 ^ 23 + fm < 2 ^ 31"
    using assms(2,3) by simp
  then have "x < 2 ^ 32"
    using assms(1) by (simp add: x_def)
  then show "unat (of_nat x :: 32 word) = x"
    by (simp add: unat_of_nat)
  show "x div 2 ^ 31 = sb"
    unfolding x_def by (rule pack_div_mod(1) [OF a])
  have m: "x mod 2 ^ 31 = fe * 2 ^ 23 + fm"
    unfolding x_def by (rule pack_div_mod(2) [OF a])
  show "x mod 2 ^ 31 div 2 ^ 23 = fe"
    unfolding m by (rule pack_div_mod(1) [OF assms(3)])
  show "x mod 2 ^ 31 mod 2 ^ 23 = fm"
    unfolding m by (rule pack_div_mod(2) [OF assms(3)])
qed

lemma double_fields:
  assumes "sb \<le> 1" and "e < 2048" and "m < 2 ^ 52"
  defines "x \<equiv> sb * 2 ^ 63 + (e * 2 ^ 52 + m)"
  shows "unat (of_nat x :: 64 word) = x"
    and "x div 2 ^ 63 = sb" and "x mod 2 ^ 63 div 2 ^ 52 = e"
    and "x mod 2 ^ 63 mod 2 ^ 52 = m"
proof -
  have a: "e * 2 ^ 52 + m < 2 ^ 63"
    using assms(2,3) by simp
  then have "x < 2 ^ 64"
    using assms(1) by (simp add: x_def)
  then show "unat (of_nat x :: 64 word) = x"
    by (simp add: unat_of_nat)
  show "x div 2 ^ 63 = sb"
    unfolding x_def by (rule pack_div_mod(1) [OF a])
  have m: "x mod 2 ^ 63 = e * 2 ^ 52 + m"
    unfolding x_def by (rule pack_div_mod(2) [OF a])
  show "x mod 2 ^ 63 div 2 ^ 52 = e"
    unfolding m by (rule pack_div_mod(1) [OF assms(3)])
  show "x mod 2 ^ 63 mod 2 ^ 52 = m"
    unfolding m by (rule pack_div_mod(2) [OF assms(3)])
qed

text \<open>Every binary64 pattern is made of its three fields.\<close>

lemma double_decompose:
  fixes w :: "64 word"
  defines "x \<equiv> unat w"
  shows "x div 2 ^ 63 \<le> 1" and "x mod 2 ^ 63 div 2 ^ 52 < 2048"
    and "x mod 2 ^ 63 mod 2 ^ 52 < 2 ^ 52"
    and "w = of_nat (x div 2 ^ 63 * 2 ^ 63
                + (x mod 2 ^ 63 div 2 ^ 52 * 2 ^ 52 + x mod 2 ^ 63 mod 2 ^ 52))"
proof -
  have "x < 2 ^ 64"
    using unsigned_less [of w] by (simp add: x_def)
  then show "x div 2 ^ 63 \<le> 1"
    by simp
  have "x mod 2 ^ 63 < 2 ^ 63"
    by simp
  then show "x mod 2 ^ 63 div 2 ^ 52 < 2048"
    by simp
  show "x mod 2 ^ 63 mod 2 ^ 52 < 2 ^ 52"
    by simp
  have "x div 2 ^ 63 * 2 ^ 63
          + (x mod 2 ^ 63 div 2 ^ 52 * 2 ^ 52 + x mod 2 ^ 63 mod 2 ^ 52) = x"
    by simp
  then show "w = of_nat (x div 2 ^ 63 * 2 ^ 63
                + (x mod 2 ^ 63 div 2 ^ 52 * 2 ^ 52 + x mod 2 ^ 63 mod 2 ^ 52))"
    by (simp add: x_def)
qed

lemma narrow_widen_zero:
  assumes "sb \<le> 1"
  defines "w \<equiv> of_nat (sb * 2 ^ 63 + (0 * 2 ^ 52 + 0)) :: 64 word"
  shows "\<exists>y. double_to_single w = Inr y \<and> single_to_double y = w"
proof -
  have f: "(0::nat) < 2048" "(0::nat) < 2 ^ 52" "(0::nat) < 256" "(0::nat) < 2 ^ 23"
    by simp_all
  have "rne 0 (29 + (897 - 1)) = 0"
    by (simp add: rne_def)
  then have n: "double_to_single w = Inr (of_nat (sb * 2 ^ 31 + (0 * 2 ^ 23 + 0)))"
    unfolding w_def double_to_single_def Let_def double_fields [OF assms(1) f(1,2)]
    by simp
  have "single_to_double (of_nat (sb * 2 ^ 31 + (0 * 2 ^ 23 + 0))) = w"
    unfolding w_def single_to_double_def Let_def single_fields [OF assms(1) f(3,4)]
    by simp
  with n show ?thesis by simp
qed

lemma narrow_widen_inf:
  assumes "sb \<le> 1"
  defines "w \<equiv> of_nat (sb * 2 ^ 63 + (2047 * 2 ^ 52 + 0)) :: 64 word"
  shows "\<exists>y. double_to_single w = Inr y \<and> single_to_double y = w"
proof -
  have f: "(2047::nat) < 2048" "(0::nat) < 2 ^ 52" "(255::nat) < 256" "(0::nat) < 2 ^ 23"
    by simp_all
  have n: "double_to_single w = Inr (of_nat (sb * 2 ^ 31 + (255 * 2 ^ 23 + 0)))"
    unfolding w_def double_to_single_def Let_def double_fields [OF assms(1) f(1,2)]
    by simp
  have "single_to_double (of_nat (sb * 2 ^ 31 + (255 * 2 ^ 23 + 0))) = w"
    unfolding w_def single_to_double_def Let_def single_fields [OF assms(1) f(3,4)]
    by simp
  with n show ?thesis by simp
qed

lemma narrow_widen_normal:
  assumes "sb \<le> 1" and "m < 2 ^ 52" and "897 \<le> e" and "e \<le> 1150"
    and "m mod 2 ^ 29 = 0"
  defines "w \<equiv> of_nat (sb * 2 ^ 63 + (e * 2 ^ 52 + m)) :: 64 word"
  shows "\<exists>y. double_to_single w = Inr y \<and> single_to_double y = w"
proof -
  define fe where "fe = e - 896"
  define fm where "fm = m div 2 ^ 29"
  have e: "e < 2048" "e \<noteq> 2047" "e \<noteq> 0"
    using assms(3,4) by simp_all
  have m: "m = fm * 2 ^ 29"
    using assms(5) by (auto simp: fm_def)
  have fm: "fm < 2 ^ 23"
    using assms(2) by (simp add: fm_def less_mult_imp_div_less)
  have fe: "fe < 256" "fe \<noteq> 255" "fe \<noteq> 0" "fe + 896 = e"
    using assms(3,4) by (simp_all add: fe_def)
  have "(2 ^ 52 + m) mod 2 ^ 29 = 0"
    using assms(5) by (simp add: mod_add_eq [symmetric] del: mod_add_eq)
  then have r: "rne (2 ^ 52 + m) 29 = 2 ^ 23 + fm"
    by (simp add: rne_exact m)
  have fb: "(e - 897) * 2 ^ 23 + rne (2 ^ 52 + m) 29 = fe * 2 ^ 23 + fm"
    using assms(3) unfolding r fe_def by (simp add: algebra_simps)
  have lt: "\<not> 255 * 2 ^ 23 \<le> fe * 2 ^ 23 + fm"
    using fm fe(1,2) by simp
  have n: "double_to_single w = Inr (of_nat (sb * 2 ^ 31 + (fe * 2 ^ 23 + fm)))"
    unfolding w_def double_to_single_def Let_def double_fields [OF assms(1) e(1) assms(2)]
    using e(2,3) assms(3) lt by (simp only: fb if_False if_True)
  have "single_to_double (of_nat (sb * 2 ^ 31 + (fe * 2 ^ 23 + fm))) = w"
    unfolding w_def single_to_double_def Let_def single_fields [OF assms(1) fe(1) fm]
    using fe by (simp add: m)
  with n show ?thesis by simp
qed

lemma narrow_widen_subnormal:
  assumes "sb \<le> 1" and "m < 2 ^ 52" and "874 \<le> e" and "e \<le> 896"
    and "m mod 2 ^ (926 - e) = 0"
  defines "w \<equiv> of_nat (sb * 2 ^ 63 + (e * 2 ^ 52 + m)) :: 64 word"
  shows "\<exists>y. double_to_single w = Inr y \<and> single_to_double y = w"
proof -
  define sh where "sh = 926 - e"
  define k where "k = e - 874"
  define q where "q = (2 ^ 52 + m) div 2 ^ sh"
  have e: "e < 2048" "e \<noteq> 2047" "e \<noteq> 0" "\<not> 897 \<le> e"
    using assms(3,4) by simp_all
  have sh: "sh + k = 52" "29 + (897 - e) = sh"
    using assms(3,4) by (simp_all add: sh_def k_def)
  have p52: "(2::nat) ^ 52 = 2 ^ k * 2 ^ sh"
    using sh(1) by (metis add.commute power_add)
  have "(2 ^ 52 + m) mod 2 ^ sh = 0"
    using assms(5) unfolding p52 sh_def [symmetric] by (simp add: mod_add_eq [symmetric] del: mod_add_eq)
  then have r: "rne (2 ^ 52 + m) sh = q" and qm: "q * 2 ^ sh = 2 ^ 52 + m"
    by (auto simp: rne_exact q_def)
  have lo: "2 ^ k \<le> q"
  proof -
    have "2 ^ k * 2 ^ sh \<le> q * (2::nat) ^ sh"
      unfolding qm p52 [symmetric] by simp
    then show ?thesis by simp
  qed
  have hi: "q < 2 ^ Suc k"
  proof -
    have "q * (2::nat) ^ sh < 2 ^ Suc k * 2 ^ sh"
      unfolding qm using assms(2) p52 by simp
    then show ?thesis by simp
  qed
  have bl: "bitlen q = Suc k"
    by (rule bitlen_eq [OF lo hi])
  have "(2::nat) ^ Suc k \<le> 2 ^ 23"
    using assms(4) by (intro power_increasing) (simp_all add: k_def)
  with hi have q23: "q < 2 ^ 23"
    by linarith
  have q0: "q \<noteq> 0"
    using lo by (metis le_zero_eq power_not_zero zero_neq_numeral)
  have f: "(0::nat) < 256"
    by simp
  have lt: "\<not> 255 * 2 ^ 23 \<le> q"
    using q23 by simp
  have n: "double_to_single w = Inr (of_nat (sb * 2 ^ 31 + (0 * 2 ^ 23 + q)))"
    unfolding w_def double_to_single_def Let_def double_fields [OF assms(1) e(1) assms(2)]
    using e lt by (simp only: sh r if_False if_True mult_zero_left add_0)
  have wd: "(bitlen q + 872) * 2 ^ 52 + q * 2 ^ (53 - bitlen q) = e * 2 ^ 52 + m"
  proof -
    have "53 - bitlen q = sh"
      using sh(1) by (simp add: bl)
    moreover have "bitlen q + 872 = (e - 1)"
      using assms(3) by (simp add: bl k_def)
    moreover have "(e - 1) * 2 ^ 52 + (2 ^ 52 + m) = e * 2 ^ 52 + m"
      using assms(3) by (simp add: algebra_simps diff_mult_distrib)
    ultimately show ?thesis
      by (simp add: qm)
  qed
  have z: "((0::nat) = 255) = False" "((0::nat) = 0) = True"
    by simp_all
  have "single_to_double (of_nat (sb * 2 ^ 31 + (0 * 2 ^ 23 + q))) = w"
    unfolding w_def single_to_double_def Let_def single_fields [OF assms(1) f q23]
    using z q0 by (simp only: wd if_False if_True)
  with n show ?thesis by simp
qed

lemma narrow_widen:
  assumes "fits_single w"
  shows "\<exists>y. double_to_single w = Inr y \<and> single_to_double y = w"
proof -
  define x where "x = unat w"
  define sb where "sb = x div 2 ^ 63"
  define e where "e = x mod 2 ^ 63 div 2 ^ 52"
  define m where "m = x mod 2 ^ 63 mod 2 ^ 52"
  have b: "sb \<le> 1" "e < 2048" "m < 2 ^ 52"
    and w: "w = of_nat (sb * 2 ^ 63 + (e * 2 ^ 52 + m))"
    using double_decompose [of w] unfolding x_def sb_def e_def m_def by blast+
  from assms have
    "(e = 0 \<and> m = 0) \<or> (e = 2047 \<and> m = 0)
     \<or> (897 \<le> e \<and> e \<le> 1150 \<and> m mod 2 ^ 29 = 0)
     \<or> (874 \<le> e \<and> e \<le> 896 \<and> m mod 2 ^ (926 - e) = 0)"
    unfolding fits_single_def Let_def x_def sb_def e_def m_def .
  then consider
      (zero) "e = 0" "m = 0"
    | (inf) "e = 2047" "m = 0"
    | (normal) "897 \<le> e" "e \<le> 1150" "m mod 2 ^ 29 = 0"
    | (subnormal) "874 \<le> e" "e \<le> 896" "m mod 2 ^ (926 - e) = 0"
    by auto
  then show ?thesis
  proof cases
    case zero
    then show ?thesis
      unfolding w using narrow_widen_zero [OF b(1)] by simp
  next
    case inf
    then show ?thesis
      unfolding w using narrow_widen_inf [OF b(1)] by simp
  next
    case normal
    then show ?thesis
      unfolding w by (rule narrow_widen_normal [OF b(1) b(3)])
  next
    case subnormal
    then show ?thesis
      unfolding w by (rule narrow_widen_subnormal [OF b(1) b(3)])
  qed
qed

subsection \<open>The floats that binary32 holds\<close>

lemma fits_single_fields:
  assumes "sb \<le> 1" and "e < 2048" and "m < 2 ^ 52"
  shows "fits_single (of_nat (sb * 2 ^ 63 + (e * 2 ^ 52 + m))) =
           ((e = 0 \<and> m = 0) \<or> (e = 2047 \<and> m = 0)
            \<or> (897 \<le> e \<and> e \<le> 1150 \<and> m mod 2 ^ 29 = 0)
            \<or> (874 \<le> e \<and> e \<le> 896 \<and> m mod 2 ^ (926 - e) = 0))"
  unfolding fits_single_def Let_def double_fields [OF assms] by (rule refl)

lemma single_decompose:
  fixes y :: "32 word"
  defines "x \<equiv> unat y"
  shows "x div 2 ^ 31 \<le> 1" and "x mod 2 ^ 31 div 2 ^ 23 < 256"
    and "x mod 2 ^ 31 mod 2 ^ 23 < 2 ^ 23"
    and "y = of_nat (x div 2 ^ 31 * 2 ^ 31
                + (x mod 2 ^ 31 div 2 ^ 23 * 2 ^ 23 + x mod 2 ^ 31 mod 2 ^ 23))"
proof -
  have "x < 2 ^ 32"
    using unsigned_less [of y] by (simp add: x_def)
  then show "x div 2 ^ 31 \<le> 1"
    by simp
  have "x mod 2 ^ 31 < 2 ^ 31"
    by simp
  then show "x mod 2 ^ 31 div 2 ^ 23 < 256"
    by simp
  show "x mod 2 ^ 31 mod 2 ^ 23 < 2 ^ 23"
    by simp
  have "x div 2 ^ 31 * 2 ^ 31
          + (x mod 2 ^ 31 div 2 ^ 23 * 2 ^ 23 + x mod 2 ^ 31 mod 2 ^ 23) = x"
    by simp
  then show "y = of_nat (x div 2 ^ 31 * 2 ^ 31
                + (x mod 2 ^ 31 div 2 ^ 23 * 2 ^ 23 + x mod 2 ^ 31 mod 2 ^ 23))"
    by (simp add: x_def)
qed

lemma bitlen_bounds:
  "n \<noteq> 0 \<Longrightarrow> 0 < bitlen n \<and> 2 ^ (bitlen n - 1) \<le> n \<and> n < 2 ^ bitlen n"
proof (induction n rule: bitlen.induct)
  case (1 n)
  show ?case
  proof (cases "n div 2 = 0")
    case True
    with "1.prems" have "n = 1"
      by (simp add: div_eq_0_iff)
    then show ?thesis
      by (simp add: bitlen.simps [of "Suc 0"] bitlen.simps [of 0])
  next
    case False
    from "1.IH" [OF "1.prems" False]
    have ih: "0 < bitlen (n div 2)" "2 ^ (bitlen (n div 2) - 1) \<le> n div 2"
      "n div 2 < 2 ^ bitlen (n div 2)"
      by simp_all
    have b: "bitlen n = Suc (bitlen (n div 2))"
      using "1.prems" by (simp add: bitlen.simps [of n])
    have "2 ^ (bitlen n - 1) = 2 * 2 ^ (bitlen (n div 2) - 1)"
      using ih(1) unfolding b by (cases "bitlen (n div 2)") simp_all
    also have "\<dots> \<le> 2 * (n div 2)"
      using ih(2) by simp
    also have "\<dots> \<le> n"
      by simp
    finally have lo: "2 ^ (bitlen n - 1) \<le> n" .
    have "n < 2 * 2 ^ bitlen (n div 2)"
      using ih(3) by linarith
    then show ?thesis
      using lo by (simp add: b)
  qed
qed

lemma single_to_double_fields:
  assumes "sb \<le> 1" and "fe < 256" and "fm < 2 ^ 23"
  shows "single_to_double (of_nat (sb * 2 ^ 31 + (fe * 2 ^ 23 + fm))) =
           of_nat (sb * 2 ^ 63 +
             (if fe = 255
              then 2047 * 2 ^ 52 + (if fm = 0 then 0 else 2 ^ 51 + (fm mod 2 ^ 22) * 2 ^ 29)
              else if fe = 0
              then (if fm = 0 then 0
                    else (bitlen fm + 872) * 2 ^ 52 + fm * 2 ^ (53 - bitlen fm))
              else (fe + 896) * 2 ^ 52 + fm * 2 ^ 29))"
  unfolding single_to_double_def Let_def single_fields [OF assms] by (rule refl)

lemma is_nan32_fields:
  assumes "sb \<le> 1" and "fe < 256" and "fm < 2 ^ 23"
  shows "is_nan32 (of_nat (sb * 2 ^ 31 + (fe * 2 ^ 23 + fm))) = (fe = 255 \<and> fm \<noteq> 0)"
  unfolding is_nan32_def Let_def single_fields [OF assms] by (rule refl)

lemma widen_fields_fits:
  assumes "sb \<le> 1" and "fe < 256" and "fm < 2 ^ 23" and "\<not> (fe = 255 \<and> fm \<noteq> 0)"
  shows "fits_single (single_to_double (of_nat (sb * 2 ^ 31 + (fe * 2 ^ 23 + fm))))"
proof -
  consider (inf) "fe = 255" "fm = 0" | (zero) "fe = 0" "fm = 0"
    | (subnormal) "fe = 0" "fm \<noteq> 0" | (normal) "fe \<noteq> 0" "fe \<noteq> 255"
    using assms(4) by auto
  then show ?thesis
  proof cases
    case inf
    have "single_to_double (of_nat (sb * 2 ^ 31 + (fe * 2 ^ 23 + fm)))
            = of_nat (sb * 2 ^ 63 + (2047 * 2 ^ 52 + 0))"
      unfolding single_to_double_fields [OF assms(1-3)] using inf by simp
    then show ?thesis
      using fits_single_fields [OF assms(1), of 2047 0] by simp
  next
    case zero
    have "single_to_double (of_nat (sb * 2 ^ 31 + (fe * 2 ^ 23 + fm)))
            = of_nat (sb * 2 ^ 63 + (0 * 2 ^ 52 + 0))"
      unfolding single_to_double_fields [OF assms(1-3)] using zero by simp
    then show ?thesis
      using fits_single_fields [OF assms(1), of 0 0] by simp
  next
    case subnormal
    define bl where "bl = bitlen fm"
    define sh where "sh = 53 - bl"
    define m where "m = (fm - 2 ^ (bl - 1)) * 2 ^ sh"
    have b: "0 < bl" "2 ^ (bl - 1) \<le> fm" "fm < 2 ^ bl"
      using bitlen_bounds [OF subnormal(2)] by (simp_all add: bl_def)
    have bl23: "bl \<le> 23"
    proof (rule ccontr)
      assume "\<not> bl \<le> 23"
      then have "(2::nat) ^ 23 \<le> 2 ^ (bl - 1)"
        by (intro power_increasing) simp_all
      with b(2) assms(3) show False by linarith
    qed
    have s: "(bl - 1) + sh = 52" "bl + sh = 53"
      using b(1) bl23 by (simp_all add: sh_def)
    have p52: "(2::nat) ^ 52 = 2 ^ (bl - 1) * 2 ^ sh"
      using s(1) by (metis power_add)
    have p53: "(2::nat) ^ 53 = 2 ^ bl * 2 ^ sh"
      using s(2) by (metis power_add)
    have fmsh: "fm * 2 ^ sh = 2 ^ 52 + m"
      unfolding m_def p52 using b(2)
      by (simp add: diff_mult_distrib)
    have "fm * (2::nat) ^ sh < 2 ^ bl * 2 ^ sh"
      using b(3) by simp
    then have m52: "m < 2 ^ 52"
      unfolding p53 [symmetric] fmsh by simp
    have e: "bl + 873 < 2048" "874 \<le> bl + 873" "bl + 873 \<le> 896" "926 - (bl + 873) = sh"
      using b(1) bl23 by (simp_all add: sh_def)
    have "(bl + 872) * 2 ^ 52 + fm * 2 ^ sh = (bl + 873) * 2 ^ 52 + m"
      unfolding fmsh by (simp add: algebra_simps)
    then have "single_to_double (of_nat (sb * 2 ^ 31 + (fe * 2 ^ 23 + fm)))
            = of_nat (sb * 2 ^ 63 + ((bl + 873) * 2 ^ 52 + m))"
      unfolding single_to_double_fields [OF assms(1-3)] bl_def [symmetric] sh_def [symmetric]
      using subnormal by simp
    moreover have "m mod 2 ^ sh = 0"
      by (simp add: m_def)
    ultimately show ?thesis
      using fits_single_fields [OF assms(1) e(1) m52] e(2,3,4) by simp
  next
    case normal
    have m: "fm * 2 ^ 29 < 2 ^ 52"
      using assms(3) by simp
    have e: "fe + 896 < 2048" "897 \<le> fe + 896" "fe + 896 \<le> 1150"
      using assms(2) normal by simp_all
    have "single_to_double (of_nat (sb * 2 ^ 31 + (fe * 2 ^ 23 + fm)))
            = of_nat (sb * 2 ^ 63 + ((fe + 896) * 2 ^ 52 + fm * 2 ^ 29))"
      unfolding single_to_double_fields [OF assms(1-3)] using normal by simp
    moreover have "fm * 2 ^ 29 mod 2 ^ 29 = 0"
      by simp
    ultimately show ?thesis
      using fits_single_fields [OF assms(1) e(1) m] e(2,3) by simp
  qed
qed

lemma widen_nan_not_fits:
  assumes "sb \<le> 1" and "fm < 2 ^ 23" and "fm \<noteq> 0"
  shows "\<not> fits_single (single_to_double (of_nat (sb * 2 ^ 31 + (255 * 2 ^ 23 + fm))))"
proof -
  define m where "m = 2 ^ 51 + (fm mod 2 ^ 22) * 2 ^ 29"
  have f: "(255::nat) < 256" "(2047::nat) < 2048"
    by simp_all
  have "fm mod 2 ^ 22 < 2 ^ 22"
    by simp
  then have m: "m < 2 ^ 52" "m \<noteq> 0"
    by (simp_all add: m_def)
  have "single_to_double (of_nat (sb * 2 ^ 31 + (255 * 2 ^ 23 + fm)))
          = of_nat (sb * 2 ^ 63 + (2047 * 2 ^ 52 + m))"
    unfolding single_to_double_fields [OF assms(1) f(1) assms(2)] m_def
    using assms(3) by simp
  then show ?thesis
    using fits_single_fields [OF assms(1) f(2) m(1)] m(2) by simp
qed

text \<open>
  The floats that \<open>fits_single\<close> accepts are exactly the values of the binary32 data
  other than NaNs.
\<close>

lemma fits_single_iff:
  "fits_single w \<longleftrightarrow> (\<exists>y. \<not> is_nan32 y \<and> single_to_double y = w)"
proof
  assume fw: "fits_single w"
  from narrow_widen [OF fw] obtain y where y: "single_to_double y = w"
    by blast
  have "\<not> is_nan32 y"
  proof
    assume n: "is_nan32 y"
    define x where "x = unat y"
    define sb where "sb = x div 2 ^ 31"
    define fe where "fe = x mod 2 ^ 31 div 2 ^ 23"
    define fm where "fm = x mod 2 ^ 31 mod 2 ^ 23"
    have b: "sb \<le> 1" "fe < 256" "fm < 2 ^ 23"
      and yf: "y = of_nat (sb * 2 ^ 31 + (fe * 2 ^ 23 + fm))"
      using single_decompose [of y] unfolding x_def sb_def fe_def fm_def by blast+
    from n have "fe = 255" "fm \<noteq> 0"
      unfolding yf is_nan32_fields [OF b] by simp_all
    with widen_nan_not_fits [OF b(1) b(3)] fw y yf show False
      by simp
  qed
  with y show "\<exists>y. \<not> is_nan32 y \<and> single_to_double y = w"
    by blast
next
  assume "\<exists>y. \<not> is_nan32 y \<and> single_to_double y = w"
  then obtain y where n: "\<not> is_nan32 y" and y: "single_to_double y = w"
    by blast
  define x where "x = unat y"
  define sb where "sb = x div 2 ^ 31"
  define fe where "fe = x mod 2 ^ 31 div 2 ^ 23"
  define fm where "fm = x mod 2 ^ 31 mod 2 ^ 23"
  have b: "sb \<le> 1" "fe < 256" "fm < 2 ^ 23"
    and yf: "y = of_nat (sb * 2 ^ 31 + (fe * 2 ^ 23 + fm))"
    using single_decompose [of y] unfolding x_def sb_def fe_def fm_def by blast+
  from n have "\<not> (fe = 255 \<and> fm \<noteq> 0)"
    unfolding yf is_nan32_fields [OF b] .
  from widen_fields_fits [OF b this] show "fits_single w"
    unfolding yf [symmetric] y .
qed

subsection \<open>Integers as floats\<close>







section \<open>Round trip of the fixed-width values\<close>























end
